theory Spec2Isabelle
  imports Complex_Main
begin

section \<open>Numbers and failures of the Python program\<close>

text \<open>
  The program computes with IEEE doubles. The model computes with exact reals: rounding,
  overflow and underflow are not modelled, so every statement below is about the
  formulas the code evaluates, read over the real numbers.

  Two things of the float world that decide control flow are kept:
  \<^item> the \<open>np.nan\<close> marker, a value of its own (\<open>NaN\<close>) on which every comparison is
    false and which every arithmetic operation propagates;
  \<^item> the difference between a Python \<open>float\<close> (\<open>Py\<close>) and a numpy \<open>float64\<close> scalar
    (\<open>Np\<close>): dividing a Python float by a Python float zero raises
    \<open>ZeroDivisionError\<close>, while a division in which a numpy operand takes part returns
    \<open>inf\<close> or \<open>nan\<close> under a RuntimeWarning and goes on.

  Infinities are not values of the model. Where numpy would produce one (a numpy
  division by zero) the model stops with the outcome \<open>NonFinite\<close>, which is not a Python
  exception but the mark that the run has left the modelled fragment.
\<close>

datatype fval = Py real | Np real | NaN

datatype pyerr =
    ZeroDivisionError
  | UnboundLocalError
  | TypeError
  | IndexError
  | ValueError
  | NonFinite

fun num_of :: "fval \<Rightarrow> real option" where
  "num_of (Py x) = Some x"
| "num_of (Np x) = Some x"
| "num_of NaN = None"

fun is_nan :: "fval \<Rightarrow> bool" where
  "is_nan NaN = True"
| "is_nan _ = False"

text \<open>Sequencing of fallible steps: the first failure ends the run.\<close>

definition bindE :: "pyerr + 'a \<Rightarrow> ('a \<Rightarrow> pyerr + 'b) \<Rightarrow> pyerr + 'b" where
  "bindE m f = (case m of Inl e \<Rightarrow> Inl e | Inr x \<Rightarrow> f x)"

text \<open>Python \<open>a / b\<close> on two Python floats.\<close>

definition py_div :: "real \<Rightarrow> real \<Rightarrow> pyerr + real" where
  "py_div a b = (if b = 0 then Inl ZeroDivisionError else Inr (a / b))"

text \<open>numpy \<open>a / b\<close> on finite operands: a zero divisor gives \<open>inf\<close> or \<open>nan\<close>.\<close>

definition np_div :: "real \<Rightarrow> real \<Rightarrow> pyerr + real" where
  "np_div a b = (if b = 0 then Inl NonFinite else Inr (a / b))"

section \<open>Wave\<close>

record Wave =
  peak :: real
  t_acel :: real
  t_eyec :: real
  t_decel :: real
  time :: real

text \<open>
  \<open>calc_t_acel\<close> and \<open>calc_t_eyec\<close> are two independent \<open>if\<close> statements each; a
  \<open>result\<close> that neither assigns is an UnboundLocalError at \<open>return\<close>.
\<close>

definition calc_t_acel :: "real \<Rightarrow> pyerr + real" where
  "calc_t_acel pk =
     (let result = (if pk \<le> 700 then Some (70 + 2 * (pk / 100)\<^sup>2) else None);
          result = (if pk > 700 then Some 168 else result)
      in case result of None \<Rightarrow> Inl UnboundLocalError | Some r \<Rightarrow> Inr r)"

definition calc_t_eyec :: "real \<Rightarrow> pyerr + real" where
  "calc_t_eyec pk =
     (let result = (if pk < 700 then Some (240 + 0.143 * pk) else None);
          result = (if pk \<ge> 700 then Some 340 else result)
      in case result of None \<Rightarrow> Inl UnboundLocalError | Some r \<Rightarrow> Inr r)"

definition Wave_init :: "real \<Rightarrow> real \<Rightarrow> pyerr + Wave" where
  "Wave_init pk tm =
     bindE (calc_t_acel pk) (\<lambda>ta.
     bindE (calc_t_eyec pk) (\<lambda>te.
       Inr \<lparr> peak = pk, t_acel = ta, t_eyec = te, t_decel = te - ta, time = tm \<rparr>))"

text \<open>
  \<open>wavepoint\<close>: both coefficients are computed before the branches, so a zero
  \<open>t_acel\<close> or \<open>t_decel\<close> raises whatever \<open>ms\<close> is. The only caller in the program,
  \<open>get_outer_wave\<close>, passes elements of a numpy array, hence the \<open>Np\<close> results.
\<close>

definition wavepoint :: "Wave \<Rightarrow> real \<Rightarrow> real \<Rightarrow> pyerr + fval" where
  "wavepoint w ms q_eyec =
     (let t = ms - (q_eyec + t_acel w) in
      bindE (py_div (peak w) ((t_acel w)\<^sup>2)) (\<lambda>k_1.
      bindE (py_div (peak w) ((t_decel w)\<^sup>2)) (\<lambda>k_2.
        if t < - t_acel w then Inr NaN
        else if t \<le> 0 then Inr (Np (k_1 * t\<^sup>2 - peak w))
        else if t < t_decel w then Inr (Np (k_2 * t\<^sup>2 - peak w))
        else Inr NaN)))"

text \<open>The expressions of the two branches of each piecewise formula, named.\<close>

definition t_acel_upto_700 :: "real \<Rightarrow> real" where
  "t_acel_upto_700 pk = 70 + 2 * (pk / 100)\<^sup>2"

definition t_acel_above_700 :: real where
  "t_acel_above_700 = 168"

definition t_eyec_below_700 :: "real \<Rightarrow> real" where
  "t_eyec_below_700 pk = 240 + 0.143 * pk"

definition t_eyec_from_700 :: real where
  "t_eyec_from_700 = 340"

section \<open>Float arrays\<close>

text \<open>
  Elements of numpy float arrays are \<open>Np\<close> numbers or the nan marker. \<open>to_np\<close> is the
  conversion a value undergoes when it is stored into an array; \<open>fmul\<close> and \<open>fneg\<close> are
  the elementwise product and negation.
\<close>

fun to_np :: "fval \<Rightarrow> fval" where
  "to_np (Py x) = Np x"
| "to_np (Np x) = Np x"
| "to_np NaN = NaN"

definition fmul :: "fval \<Rightarrow> fval \<Rightarrow> fval" where
  "fmul a b = (case (num_of a, num_of b) of (Some x, Some y) \<Rightarrow> Np (x * y) | _ \<Rightarrow> NaN)"


text \<open>\<open>a > b\<close> on floats: false as soon as one side is nan.\<close>

definition fval_gt :: "fval \<Rightarrow> fval \<Rightarrow> bool" where
  "fval_gt a b = (case (num_of a, num_of b) of (Some x, Some y) \<Rightarrow> x > y | _ \<Rightarrow> False)"

text \<open>
  \<open>np.arange(0, stop, step)\<close>: \<open>ceil(stop / step)\<close> values \<open>0, step, 2 * step, ...\<close>
  (none when that number is not positive); a zero step raises.
\<close>

definition np_arange :: "real \<Rightarrow> real \<Rightarrow> pyerr + real list" where
  "np_arange stop step =
     (if step = 0 then Inl ZeroDivisionError
      else Inr (map (\<lambda>i. real i * step) [0..<nat \<lceil>stop / step\<rceil>]))"

text \<open>
  A list comprehension over fallible calls: the first call that raises ends it.
\<close>

fun mapE :: "('a \<Rightarrow> pyerr + 'b) \<Rightarrow> 'a list \<Rightarrow> pyerr + 'b list" where
  "mapE f [] = Inr []"
| "mapE f (x # xs) = bindE (f x) (\<lambda>y. bindE (mapE f xs) (\<lambda>ys. Inr (y # ys)))"


section \<open>Wave: sampled traces\<close>

definition get_timeline :: "Wave \<Rightarrow> real \<Rightarrow> pyerr + real list" where
  "get_timeline w sep_ms = np_arange (time w + 1) sep_ms"

text \<open>\<open>get_outer_wave\<close> calls \<open>wavepoint\<close> with the default pre-roll 80.\<close>

definition get_outer_wave :: "Wave \<Rightarrow> real \<Rightarrow> pyerr + fval list" where
  "get_outer_wave w sep_ms =
     bindE (np_arange (time w + 1) sep_ms) (\<lambda>timeline.
       mapE (\<lambda>ms. wavepoint w ms 80) timeline)"

text \<open>
  \<open>wave\<close>: \<open>escala = veloc / self.peak\<close> is evaluated first. \<open>self.peak\<close> is a Python
  float; a Python-float \<open>veloc\<close> (nan included) over a zero peak raises, a numpy one goes
  non-finite.
\<close>

definition wave :: "Wave \<Rightarrow> fval \<Rightarrow> real \<Rightarrow> pyerr + fval list" where
  "wave w veloc sep_ms =
     bindE (case veloc of
              Py x \<Rightarrow> bindE (py_div x (peak w)) (\<lambda>q. Inr (Py q))
            | Np x \<Rightarrow> bindE (np_div x (peak w)) (\<lambda>q. Inr (Np q))
            | NaN \<Rightarrow> (if peak w = 0 then Inl ZeroDivisionError else Inr NaN)) (\<lambda>escala.
     bindE (get_outer_wave w sep_ms) (\<lambda>outer.
       Inr (map (\<lambda>v. fmul v escala) outer)))"

section \<open>Valve\<close>

record Valve =
  l1 :: real
  l2 :: real
  length_v :: real
  rad :: real
  orif :: real
  thick :: real
  shape :: string
  wall_thick :: real
  trim_factor :: real
  y_range :: real
  v_max :: fval
  alfa :: real

text \<open>
  \<open>ava_to_rad\<close>: \<open>((ava / np.pi) ** 0.5) * 10\<close>. In Python 3 a negative float raised to
  the power 0.5 is a complex number, not a float; \<open>None\<close> stands for that complex result.
\<close>

definition ava_to_rad :: "real \<Rightarrow> real option" where
  "ava_to_rad ava = (if ava / pi < 0 then None else Some (sqrt (ava / pi) * 10))"

text \<open>
  \<open>Valve.__init__\<close>. The parameters are taken as finite numbers and \<open>shape\<close> as a string.
  \<open>float()\<close> of the complex number that a negative area produces raises TypeError; no
  other statement of the constructor can fail. \<open>float()\<close> with no argument is 0.0.
\<close>

definition Valve_init ::
  "real \<Rightarrow> real \<Rightarrow> real \<Rightarrow> real \<Rightarrow> real \<Rightarrow> real \<Rightarrow> string \<Rightarrow> real \<Rightarrow> real \<Rightarrow> pyerr + Valve" where
  "Valve_init l1_arg l2_arg length_arg rad_arg ava thick_arg shape_arg wall_thick_arg trim_factor_arg =
     (let l2' = (if \<not> l2_arg > 0 then l1_arg else l2_arg) in
      case ava_to_rad ava of
        None \<Rightarrow> Inl TypeError
      | Some r \<Rightarrow>
          Inr \<lparr> l1 = l1_arg, l2 = l2', length_v = length_arg, rad = rad_arg, orif = r,
                thick = thick_arg, shape = shape_arg, wall_thick = wall_thick_arg,
                trim_factor = trim_factor_arg, y_range = length_arg + l1_arg,
                v_max = Py 0, alfa = 0 \<rparr>)"

text \<open>
  \<open>line\<close>: ten points of the inner contour, as the pair (\<open>puntos_x\<close>, \<open>puntos_y\<close>).
  \<open>puntos_y\<close> is assigned by the \<open>cusp\<close> branch, by the \<open>line\<close> branch, or not at all
  (UnboundLocalError at \<open>return\<close>). In the \<open>cusp\<close> branch \<open>valv_xlen / (1 - factor)\<close> is a
  division of Python floats, and \<open>puntos_y * self.length / y_len\<close> a division of a
  numpy array; in the \<open>line\<close> branch \<open>self.length / valv_xlen\<close> is a division of Python
  floats.
\<close>

definition line :: "Valve \<Rightarrow> pyerr + (real list \<times> real list)" where
  "line v =
     (let puntos = (10::nat);
          valv_xlen = rad v - orif v;
          puntos_x = map (\<lambda>i. rad v - valv_xlen * (real i / real (puntos - 1))) [0..<puntos]
      in
      bindE (if shape v = ''cusp''
             then (let factor = trim_factor v in
                   bindE (py_div valv_xlen (1 - factor)) (\<lambda>x_len.
                     let x0 = rad v - x_len;
                         y_len0 = x_len\<^sup>2;
                         x1 = (rad v - valv_xlen) - x0;
                         y_len = y_len0 - x1\<^sup>2
                     in bindE (mapE (\<lambda>x. bindE (np_div ((x - x0)\<^sup>2 * length_v v) y_len)
                                             (\<lambda>q. Inr (q - length_v v))) puntos_x)
                          (\<lambda>puntos_y. Inr (Some puntos_y))))
             else Inr None) (\<lambda>puntos_y.
      bindE (if shape v = ''line''
             then bindE (py_div (length_v v) valv_xlen) (\<lambda>k.
                    Inr (Some (map (\<lambda>x. - (rad v - x) * k) puntos_x)))
             else Inr puntos_y) (\<lambda>puntos_y.
      case puntos_y of
        None \<Rightarrow> Inl UnboundLocalError
      | Some ys \<Rightarrow> Inr (puntos_x, ys))))"

text \<open>
  The loop of \<open>radio\<close> over consecutive contour points. The first pair whose lower
  height \<open>y2\<close> is not above \<open>y_\<close> gives the interpolated radius (a numpy scalar; the
  division is numpy's); when no pair does, \<open>radio\<close> keeps its initial value
  \<open>float()\<close>, that is 0.0.
\<close>

fun radio_loop :: "(real \<times> real) list \<Rightarrow> real \<Rightarrow> pyerr + fval" where
  "radio_loop ((x1, y1) # (x2, y2) # rest) y' =
     (if y' < y2 then radio_loop ((x2, y2) # rest) y'
      else if y' \<ge> y2
           then bindE (np_div (y' - y1) (y2 - y1)) (\<lambda>q. Inr (Np (x1 + q * (x2 - x1))))
           else radio_loop ((x2, y2) # rest) y')"
| "radio_loop _ y' = Inr (Py 0)"

definition radio :: "Valve \<Rightarrow> real \<Rightarrow> pyerr + fval" where
  "radio v y =
     (if y > 0 then Inr NaN
      else if y \<ge> - l1 v then Inr (Py (rad v))
      else if y \<ge> - (l1 v + length_v v)
           then bindE (line v) (\<lambda>(xs, ys). radio_loop (zip xs ys) (y - (- l1 v)))
      else if y \<ge> - (l1 v + length_v v + 2) then Inr (Py (orif v))
      else Inr NaN)"

section \<open>Simulation: band grouping\<close>

text \<open>
  The loop of \<open>band_grouping\<close>, \<open>k\<close> iterations left; \<open>n\<close> is the quotient, \<open>resto\<close> the
  remainder still to hand out, \<open>limit\<close> the running cutoff, \<open>group_limits\<close> the list
  built so far.
\<close>

fun grouping_loop :: "nat \<Rightarrow> int \<Rightarrow> int \<Rightarrow> int \<Rightarrow> int list \<Rightarrow> int list" where
  "grouping_loop 0 n resto limit group_limits = group_limits"
| "grouping_loop (Suc k) n resto limit group_limits =
     (let limit = limit + n in
      if resto > 0
      then grouping_loop k n (resto - 1) (limit + 1) (group_limits @ [limit + 1])
      else grouping_loop k n resto limit (group_limits @ [limit]))"

text \<open>
  Python's \<open>//\<close> and \<open>%\<close> round towards minus infinity, as \<open>div\<close> and \<open>mod\<close> on \<open>int\<close>
  do; \<open>b // 0\<close> raises. \<open>range(g)\<close> is empty for \<open>g \<le> 0\<close>.
\<close>

definition band_grouping :: "int \<Rightarrow> int \<Rightarrow> pyerr + int list" where
  "band_grouping b g =
     (if g = 0 then Inl ZeroDivisionError
      else Inr (grouping_loop (nat g) (b div g) (b mod g) 0 []))"

text \<open>
  The number of bands of each group, read off the cumulative cutoffs: group 0 runs from
  band 0, group \<open>i\<close> from the cutoff of group \<open>i - 1\<close> (as \<open>calc_group\<close> reads them).
\<close>

definition group_counts :: "int list \<Rightarrow> int list" where
  "group_counts limits = map2 (\<lambda>hi lo. hi - lo) limits (0 # butlast limits)"

text \<open>
  The closed form of the \<open>j\<close>-th cumulative cutoff for quotient \<open>n\<close> and remainder
  \<open>r\<close>: \<open>j\<close> groups of \<open>n\<close> bands, and one more band for each of the first \<open>r\<close>.
\<close>

definition cutoff :: "int \<Rightarrow> int \<Rightarrow> nat \<Rightarrow> int" where
  "cutoff n r j = int j * n + min (int j) r"

section \<open>Simulation\<close>

record Simulation =
  bands :: int
  band_groups :: int
  basal_velocity :: real
  group_limits :: "int list"
  method_s :: string
  valves :: "Valve list"
  dispersion :: real
  sep_ms :: real
  seed :: int
  v_max_scale :: fval

text \<open>
  \<open>v_conteq\<close>: \<open>(basal_v * rad_LVOT ** 2) / radio ** 2\<close>. The numerator is a Python
  float. A Python-float \<open>radio\<close> whose square is zero raises; a numpy \<open>radio\<close> whose
  square is zero gives a non-finite quotient; the nan marker gives nan.
\<close>

definition v_conteq :: "fval \<Rightarrow> Valve \<Rightarrow> real \<Rightarrow> pyerr + fval" where
  "v_conteq radio_arg v basal_v =
     (let rad_LVOT = rad v in
      case radio_arg of
        Py r \<Rightarrow> bindE (py_div (basal_v * rad_LVOT\<^sup>2) (r\<^sup>2)) (\<lambda>q. Inr (Py q))
      | Np r \<Rightarrow> bindE (np_div (basal_v * rad_LVOT\<^sup>2) (r\<^sup>2)) (\<lambda>q. Inr (Np q))
      | NaN \<Rightarrow> Inr NaN)"

text \<open>Python \<open>max\<close> of a list: the first largest element; an empty list raises.\<close>

definition py_max :: "fval list \<Rightarrow> pyerr + fval" where
  "py_max xs =
     (case xs of
        [] \<Rightarrow> Inl ValueError
      | x # rest \<Rightarrow> Inr (foldl (\<lambda>m a. if fval_gt a m then a else m) x rest))"

text \<open>
  \<open>Simulation.__init__\<close>. \<open>seed_arg = None\<close> draws the seed from numpy's global
  generator; \<open>global_draw\<close> is the number that draw returns. The loop over the valves
  assigns \<open>v_max\<close> (from the constructor's argument \<open>basal_velocity\<close>) and \<open>alfa\<close>
  (\<open>12 / self.bands\<close>, which raises for zero bands, unless \<open>sim_alfa\<close> is given) to each
  valve object in turn; the model returns the valves so updated.
\<close>

definition init_valve :: "int \<Rightarrow> real \<Rightarrow> real option \<Rightarrow> Valve \<Rightarrow> pyerr + Valve" where
  "init_valve bands_arg basal_velocity_arg sim_alfa v =
     bindE (v_conteq (Py (orif v)) v basal_velocity_arg) (\<lambda>vm.
     bindE (case sim_alfa of
              None \<Rightarrow> py_div 12 (real_of_int bands_arg)
            | Some a \<Rightarrow> Inr a) (\<lambda>al.
       Inr (v\<lparr> v_max := vm, alfa := al \<rparr>)))"

definition Simulation_init ::
  "int \<Rightarrow> real \<Rightarrow> int \<Rightarrow> string \<Rightarrow> Valve list \<Rightarrow> int option \<Rightarrow> real \<Rightarrow> real option \<Rightarrow> int
     \<Rightarrow> pyerr + Simulation" where
  "Simulation_init bands_arg basal_velocity_arg band_groups_arg method_arg valves_arg seed_arg
       dispersion_arg sim_alfa global_draw =
     bindE (band_grouping bands_arg band_groups_arg) (\<lambda>limits.
     bindE (mapE (init_valve bands_arg basal_velocity_arg sim_alfa) valves_arg) (\<lambda>vs.
     bindE (py_max (map v_max vs)) (\<lambda>scale.
       Inr \<lparr> bands = bands_arg, band_groups = band_groups_arg,
             basal_velocity = basal_velocity_arg, group_limits = limits,
             method_s = method_arg, valves = vs, dispersion = dispersion_arg, sep_ms = 1,
             seed = (case seed_arg of Some s \<Rightarrow> s | None \<Rightarrow> global_draw),
             v_max_scale = scale \<rparr>)))"

text \<open>
  \<open>np.random.RandomState(seed=s).normal(loc, scale, size)\<close> is numpy's: it is a
  parameter of the model, a function of the seed, the mean, the standard deviation and
  the number of draws that either raises or gives the draws by index.
\<close>

type_synonym normal_gen = "int \<Rightarrow> real \<Rightarrow> real \<Rightarrow> nat \<Rightarrow> pyerr + (nat \<Rightarrow> real)"

text \<open>
  \<open>Wave(valve.v_max)\<close>: \<open>float(peak)\<close>, default \<open>time = 600\<close>. On a nan peak both tests
  of \<open>calc_t_acel\<close> are false and \<open>result\<close> is unbound.
\<close>

definition Wave_of :: "fval \<Rightarrow> pyerr + Wave" where
  "Wave_of vm = (case num_of vm of None \<Rightarrow> Inl UnboundLocalError | Some pk \<Rightarrow> Wave_init pk 600)"

text \<open>
  The first half of \<open>calc_band\<close>, up to the velocity of the band: the wave, the two
  heights, the two radii and \<open>vel\<close>, in the order the source computes them.
\<close>

record band_locals =
  bl_wave :: Wave
  y_1 :: real
  y_2 :: real
  radio1 :: fval
  radio2 :: fval
  vel :: fval

definition calc_band_vel :: "Simulation \<Rightarrow> int \<Rightarrow> Valve \<Rightarrow> pyerr + band_locals" where
  "calc_band_vel sim n v =
     bindE (py_div (y_range v) (real_of_int (bands sim))) (\<lambda>interval.
     bindE (Wave_of (v_max v)) (\<lambda>w.
       let y1 = - (real_of_int n * interval);
           y2 = - ((real_of_int n + 1) * interval) in
       bindE (radio v y1) (\<lambda>r1.
       bindE (radio v y2) (\<lambda>r2.
       bindE (v_conteq r2 v (basal_velocity sim)) (\<lambda>vl.
         Inr \<lparr> bl_wave = w, y_1 = y1, y_2 = y2, radio1 = r1, radio2 = r2, vel = vl \<rparr>)))))"

text \<open>
  \<open>calc_band\<close>: the ROI segment (two columns \<open>(radius, height)\<close>) and the scatter points
  (columns \<open>(time, velocity)\<close>). The only nan filter of the function is applied to the
  time axis \<open>x_points\<close>. \<open>np.array([x_points, y_points])\<close> needs rows of one length.
\<close>

definition calc_band ::
  "normal_gen \<Rightarrow> Simulation \<Rightarrow> int \<Rightarrow> Valve
     \<Rightarrow> pyerr + ((fval \<times> real) list \<times> (fval \<times> fval) list)" where
  "calc_band rng sim n v =
     bindE (calc_band_vel sim n v) (\<lambda>b.
       let contour = [(to_np (radio1 b), y_1 b), (to_np (radio2 b), y_2 b)] in
       bindE (get_timeline (bl_wave b) (sep_ms sim)) (\<lambda>timeline.
         let x_points = map Np timeline;
             x_points = filter (\<lambda>x. \<not> is_nan x) x_points in
       bindE (wave (bl_wave b) (vel b) (sep_ms sim)) (\<lambda>y_points.
       bindE (rng (seed sim + n) 1 (dispersion sim) (length y_points)) (\<lambda>draws.
         let y_points = map (\<lambda>i. fmul (y_points ! i) (Np (draws i))) [0..<length y_points]
         in if length x_points = length y_points
            then Inr (contour, zip x_points y_points)
            else Inl ValueError))))"



text \<open>
  A small configuration used to run the model: a \<open>line\<close> valve with LVOT radius 10 and
  orifice radius 5 (the area \<open>\<pi> / 4\<close>), LVOT length 10 and valve length 5, in a
  simulation of 3 bands in 1 group with basal velocity 110 and seed 7, as
  \<open>Simulation.__init__\<close> leaves them. \<open>loc_gen\<close> and \<open>ones_gen\<close> are two stand-ins for the
  generator: all draws equal to the mean (what a zero dispersion gives), and all draws
  equal to 1.
\<close>

definition example_valve :: Valve where
  "example_valve =
     \<lparr> l1 = 10, l2 = 10, length_v = 5, rad = 10, orif = 5, thick = 1, shape = ''line'',
       wall_thick = 2, trim_factor = 0, y_range = 15, v_max = Py 0, alfa = 0 \<rparr>"

definition example_sim_valve :: Valve where
  "example_sim_valve = example_valve \<lparr> v_max := Py 440, alfa := 4 \<rparr>"

definition example_sim :: Simulation where
  "example_sim =
     \<lparr> bands = 3, band_groups = 1, basal_velocity = 110, group_limits = [3],
       method_s = ''scatter'', valves = [example_sim_valve], dispersion = 1 / 20, sep_ms = 1,
       seed = 7, v_max_scale = Py 440 \<rparr>"

definition loc_gen :: normal_gen where
  "loc_gen s loc scale k = Inr (\<lambda>i. loc)"



text \<open>
  \<open>radius_le p q\<close>: both radius queries return a number (they neither raise nor give
  the nan marker) and the first number is at most the second.
\<close>

definition radius_le :: "pyerr + fval \<Rightarrow> pyerr + fval \<Rightarrow> bool" where
  "radius_le p q =
     (case (p, q) of
        (Inr b, Inr a) \<Rightarrow>
          (case (num_of b, num_of a) of (Some rb, Some ra) \<Rightarrow> rb \<le> ra | _ \<Rightarrow> False)
      | _ \<Rightarrow> False)"

text \<open>
  Going from a contour point \<open>p\<close> to a later point \<open>q\<close>, the radius does not grow and the
  height falls.
\<close>

definition descends :: "real \<times> real \<Rightarrow> real \<times> real \<Rightarrow> bool" where
  "descends p q = (fst q \<le> fst p \<and> snd q < snd p)"

text \<open>
  The example valve as a \<open>cusp\<close> with \<open>trim_factor = 2\<close>, as \<open>Valve.__init__\<close> leaves
  it.
\<close>

definition overtrimmed_valve :: Valve where
  "overtrimmed_valve =
     \<lparr> l1 = 10, l2 = 10, length_v = 5, rad = 10, orif = 5, thick = 1, shape = ''cusp'',
       wall_thick = 2, trim_factor = 2, y_range = 15, v_max = Py 0, alfa = 0 \<rparr>"

section \<open>Band grouping: proofs\<close>

lemma grouping_loop_closed:
  "grouping_loop k n r l acc =
     acc @ map (\<lambda>j. l + (int j + 1) * n + min (int j + 1) (max r 0)) [0..<k]"
proof (induction k arbitrary: r l acc)
  case 0
  then show ?case by simp
next
  case (Suc k)
  have shift: "[0..<Suc k] = 0 # map Suc [0..<k]"
    by (simp add: upt_conv_Cons map_Suc_upt del: upt_Suc)
  show ?case
  proof (cases "r > 0")
    case True
    then show ?thesis
      unfolding shift
      by (simp add: Suc.IH Let_def o_def algebra_simps min_def max_def del: upt_Suc)
  next
    case False
    then show ?thesis
      unfolding shift
      by (simp add: Suc.IH Let_def o_def algebra_simps min_def max_def del: upt_Suc)
  qed
qed


lemma band_grouping_closed:
  assumes "1 \<le> g"
  shows "band_grouping b g = Inr (map (\<lambda>j. cutoff (b div g) (b mod g) (Suc j)) [0..<nat g])"
proof -
  have "0 \<le> b mod g" using assms by simp
  then have "max (b mod g) 0 = b mod g" by simp
  then show ?thesis using assms
    by (simp add: band_grouping_def grouping_loop_closed cutoff_def algebra_simps)
qed

lemma group_counts_closed:
  assumes r0: "0 \<le> r"
  shows "group_counts (map (\<lambda>j. cutoff n r (Suc j)) [0..<k]) =
     map (\<lambda>j. cutoff n r (Suc j) - cutoff n r j) [0..<k]"
proof (rule nth_equalityI)
  show "length (group_counts (map (\<lambda>j. cutoff n r (Suc j)) [0..<k])) =
        length (map (\<lambda>j. cutoff n r (Suc j) - cutoff n r j) [0..<k])"
    by (cases k) (simp_all add: group_counts_def)
next
  fix i assume "i < length (group_counts (map (\<lambda>j. cutoff n r (Suc j)) [0..<k]))"
  then have ik: "i < k" by (simp add: group_counts_def)
  show "group_counts (map (\<lambda>j. cutoff n r (Suc j)) [0..<k]) ! i =
        map (\<lambda>j. cutoff n r (Suc j) - cutoff n r j) [0..<k] ! i"
  proof (cases i)
    case 0
    then show ?thesis using ik r0 by (simp add: group_counts_def cutoff_def)
  next
    case (Suc m)
    then show ?thesis using ik by (simp add: group_counts_def nth_butlast)
  qed
qed

lemma cutoff_step:
  "0 \<le> r \<Longrightarrow> cutoff n r (Suc j) - cutoff n r j = n + (if int j < r then 1 else 0)"
  by (simp add: cutoff_def algebra_simps min_def)

lemma sum_list_telescope:
  "0 \<le> r \<Longrightarrow> sum_list (map (\<lambda>j. cutoff n r (Suc j) - cutoff n r j) [0..<k]) = cutoff n r k"
  by (induction k) (simp_all add: cutoff_def)

text \<open>
  Claim C2, as amended. For every \<open>bands\<close> and \<open>band_groups\<close> with
  \<open>1 \<le> band_groups \<le> bands\<close>, \<open>band_grouping\<close> returns one cumulative cutoff per group;
  the last cutoff is \<open>bands\<close>, the per-group counts sum to \<open>bands\<close>, group \<open>i\<close> holds
  \<open>bands // band_groups\<close> bands and one more when \<open>i < bands % band_groups\<close> (the remainder
  goes to the first groups), and any two counts differ by at most 1.
\<close>

theorem band_grouping_balanced:
  assumes "1 \<le> g" and "g \<le> b"
  shows "case band_grouping b g of
           Inl e \<Rightarrow> False
         | Inr limits \<Rightarrow>
             length limits = nat g \<and>
             last limits = b \<and>
             sum_list (group_counts limits) = b \<and>
             (\<forall>i < nat g. group_counts limits ! i = b div g + (if int i < b mod g then 1 else 0)) \<and>
             (\<forall>c \<in> set (group_counts limits). \<forall>d \<in> set (group_counts limits). c - d \<le> 1)"
proof -
  let ?n = "b div g" and ?r = "b mod g" and ?k = "nat g"
  let ?ls = "map (\<lambda>j. cutoff ?n ?r (Suc j)) [0..<?k]"
  have r0: "0 \<le> ?r" and rg: "?r < g" using assms by simp_all
  have kpos: "0 < ?k" using assms by simp
  have full: "cutoff ?n ?r ?k = b"
  proof -
    have "min g ?r = ?r" using rg by linarith
    moreover have "int ?k = g" using assms by simp
    ultimately have "cutoff ?n ?r ?k = g * ?n + ?r"
      unfolding cutoff_def by simp
    then show ?thesis by simp
  qed
  have cnt: "group_counts ?ls = map (\<lambda>j. ?n + (if int j < ?r then 1 else 0)) [0..<?k]"
    by (simp add: group_counts_closed [OF r0] cutoff_step [OF r0])
  have len: "length ?ls = ?k" by simp
  have lst: "last ?ls = b"
  proof -
    have "?ls \<noteq> []" using kpos by simp
    then have "last ?ls = ?ls ! (?k - 1)" by (simp add: last_conv_nth)
    also have "\<dots> = cutoff ?n ?r (Suc (?k - 1))" using kpos by simp
    also have "\<dots> = b" using kpos full by simp
    finally show ?thesis .
  qed
  have sm: "sum_list (group_counts ?ls) = b"
    using sum_list_telescope [OF r0, of ?n ?k] full by (simp add: group_counts_closed [OF r0])
  have nthc: "\<forall>i < ?k. group_counts ?ls ! i = ?n + (if int i < ?r then 1 else 0)"
    by (simp add: cnt)
  have bal: "\<forall>c \<in> set (group_counts ?ls). \<forall>d \<in> set (group_counts ?ls). c - d \<le> 1"
    by (auto simp: cnt)
  show ?thesis
    unfolding band_grouping_closed [OF assms(1)]
    using len lst sm nthc bal by simp
qed

text \<open>Seven bands in three groups: cutoffs 3, 5, 7 and counts 3, 2, 2.\<close>

theorem band_grouping_balanced_witness:
  "case band_grouping 7 3 of
     Inl e \<Rightarrow> False
   | Inr limits \<Rightarrow> limits = [3, 5, 7] \<and> group_counts limits = [3, 2, 2] \<and> last limits = 7"
  using band_grouping_balanced [of 3 7]
  by (simp add: band_grouping_def group_counts_def numeral_3_eq_3)

text \<open>
  Claim C2 as stated bounds \<open>band_groups\<close> only from above. With \<open>bands = 1\<close> and
  \<open>band_groups = 0\<close> the quotient \<open>b // g\<close> raises and no cutoff list is returned.
\<close>

theorem band_grouping_zero_groups: "band_grouping 1 0 = Inl ZeroDivisionError"
  by (simp add: band_grouping_def)

section \<open>Wave: proofs\<close>

lemma calc_t_acel_eq:
  "calc_t_acel pk = Inr (if pk \<le> 700 then t_acel_upto_700 pk else t_acel_above_700)"
  by (simp add: calc_t_acel_def t_acel_upto_700_def t_acel_above_700_def)

lemma calc_t_eyec_eq:
  "calc_t_eyec pk = Inr (if pk < 700 then t_eyec_below_700 pk else t_eyec_from_700)"
  by (simp add: calc_t_eyec_def t_eyec_below_700_def t_eyec_from_700_def)

lemma Wave_init_eq:
  "Wave_init pk tm =
     Inr \<lparr> peak = pk,
           t_acel = (if pk \<le> 700 then t_acel_upto_700 pk else t_acel_above_700),
           t_eyec = (if pk < 700 then t_eyec_below_700 pk else t_eyec_from_700),
           t_decel = (if pk < 700 then t_eyec_below_700 pk else t_eyec_from_700)
                     - (if pk \<le> 700 then t_acel_upto_700 pk else t_acel_above_700),
           time = tm \<rparr>"
  by (simp add: Wave_init_def bindE_def calc_t_acel_eq calc_t_eyec_eq)


lemma decel_gap_pos:
  assumes "0 < pk"
  shows "0 < (if pk < 700 then t_eyec_below_700 pk else t_eyec_from_700)
             - (if pk \<le> 700 then t_acel_upto_700 pk else t_acel_above_700)"
proof (cases "pk < 700")
  case True
  have "(pk / 100)\<^sup>2 < 7\<^sup>2"
    using assms True by (intro power_strict_mono) simp_all
  then have "2 * (pk / 100)\<^sup>2 < 98" by simp
  moreover have "0 < 0.143 * pk" using assms by simp
  ultimately show ?thesis
    using True by (simp add: t_eyec_below_700_def t_acel_upto_700_def)
next
  case False
  then show ?thesis
    by (cases "pk = 700")
       (simp_all add: t_eyec_from_700_def t_acel_upto_700_def t_acel_above_700_def)
qed

text \<open>
  Claim C9. For every peak \<open>> 0\<close> the Wave is constructed, its \<open>t_decel\<close> is
  \<open>t_eyec - t_acel\<close> and is positive, so the division \<open>peak / t_decel ** 2\<close> that
  computes the deceleration coefficient \<open>k_2\<close> does not raise.
\<close>

theorem wave_t_decel_positive:
  assumes "0 < pk"
  shows "case Wave_init pk tm of
           Inl e \<Rightarrow> False
         | Inr w \<Rightarrow>
             peak w = pk \<and>
             t_decel w = t_eyec w - t_acel w \<and>
             0 < t_decel w \<and>
             py_div (peak w) ((t_decel w)\<^sup>2) = Inr (pk / (t_decel w)\<^sup>2)"
  using decel_gap_pos [OF assms]
  by (simp add: Wave_init_eq py_div_def)

text \<open>The default peak 450: \<open>t_acel = 110.5\<close>, \<open>t_eyec = 304.35\<close>, \<open>t_decel = 193.85\<close>.\<close>

theorem wave_t_decel_positive_witness:
  "case Wave_init 450 600 of
     Inl e \<Rightarrow> False
   | Inr w \<Rightarrow> t_acel w = 110.5 \<and> t_eyec w = 304.35 \<and> t_decel w = 193.85 \<and> 0 < t_decel w"
  using wave_t_decel_positive [of 450 600]
  by (simp add: Wave_init_eq t_acel_upto_700_def t_eyec_below_700_def power2_eq_square)

text \<open>
  Claim C8 as stated says that the two branches of both formulas differ at 700. The
  acceleration-time branches agree there: \<open>70 + 2 * 7\<^sup>2 = 168\<close>.
\<close>

theorem t_acel_branches_meet_at_700:
  "\<not> (t_acel_upto_700 700 \<noteq> t_acel_above_700 \<and> t_eyec_below_700 700 \<noteq> t_eyec_from_700)"
  by (simp add: t_acel_upto_700_def t_acel_above_700_def)

text \<open>
  Claim C8, as amended. \<open>calc_t_acel\<close> is \<open>70 + 2 * (peak / 100)\<^sup>2\<close> up to 700 and 168
  above, \<open>calc_t_eyec\<close> is \<open>240 + 0.143 * peak\<close> below 700 and 340 from 700 on; at the
  boundary the acceleration-time branches have the same value, and only the ejection-time
  branches differ, by 0.1.
\<close>

theorem only_t_eyec_jumps_at_700:
  "calc_t_acel pk = Inr (if pk \<le> 700 then t_acel_upto_700 pk else t_acel_above_700) \<and>
   calc_t_eyec pk = Inr (if pk < 700 then t_eyec_below_700 pk else t_eyec_from_700) \<and>
   t_acel_upto_700 700 = t_acel_above_700 \<and>
   t_eyec_below_700 700 - t_eyec_from_700 = 1 / 10"
  by (simp add: calc_t_acel_eq calc_t_eyec_eq t_acel_upto_700_def t_acel_above_700_def
        t_eyec_below_700_def t_eyec_from_700_def)



section \<open>Continuity equation: proofs\<close>

lemma example_sim_init:
  "Simulation_init 3 110 1 ''scatter'' [example_valve] (Some 7) (1 / 20) None gd = Inr example_sim"
  by code_simp

lemma example_band_vel: "calc_band_vel example_sim 2 example_sim_valve =
  Inr \<lparr>bl_wave = \<lparr>peak = 440, t_acel = 2718 / 25, t_eyec = 7573 / 25, t_decel = 971 / 5, time = 600\<rparr>,
        y_1 = - 10, y_2 = - 15, radio1 = Py 10, radio2 = Np 5, vel = Np 440\<rparr>"
  by code_simp

lemma bindE_Inr_iff: "bindE m f = Inr y \<longleftrightarrow> (\<exists>x. m = Inr x \<and> f x = Inr y)"
  by (cases m) (simp_all add: bindE_def)

lemma bindE_Inr [simp]: "bindE (Inr x) f = f x"
  by (simp add: bindE_def)

lemma bindE_Inl [simp]: "bindE (Inl e) f = Inl e"
  by (simp add: bindE_def)

lemma v_conteq_num:
  assumes "v_conteq r v b = Inr q"
  shows "case num_of r of
           Some x \<Rightarrow> x \<noteq> 0 \<and> num_of q = Some (b * (rad v / x)\<^sup>2)
         | None \<Rightarrow> q = NaN"
  using assms
  by (cases r)
     (auto simp: v_conteq_def py_div_def np_div_def power_divide split: if_splits)

lemma mapE_Inr_nth:
  "mapE f xs = Inr ys \<Longrightarrow> length ys = length xs \<and> (\<forall>i < length xs. f (xs ! i) = Inr (ys ! i))"
proof (induction xs arbitrary: ys)
  case Nil
  then show ?case by simp
next
  case (Cons x xs)
  from Cons.prems obtain y ys' where y: "f x = Inr y" and ys': "mapE f xs = Inr ys'"
    and eq: "ys = y # ys'"
    by (auto simp: bindE_Inr_iff)
  from Cons.IH [OF ys'] have len: "length ys' = length xs"
    and nth: "\<forall>i < length xs. f (xs ! i) = Inr (ys' ! i)" by simp_all
  show ?case
  proof (intro conjI allI impI)
    show "length ys = length (x # xs)" using eq len by simp
  next
    fix i assume "i < length (x # xs)"
    then show "f ((x # xs) ! i) = Inr (ys ! i)"
      using y nth eq by (cases i) simp_all
  qed
qed

lemma mapE_total:
  "(\<forall>x \<in> set xs. \<exists>y. f x = Inr y) \<Longrightarrow> \<exists>ys. mapE f xs = Inr ys"
  by (induction xs) auto

lemma init_valve_v_max:
  assumes "init_valve bn bv a v = Inr v'"
  shows "v_conteq (Py (orif v')) v' bv = Inr (v_max v')"
  using assms
  by (auto simp: init_valve_def bindE_Inr_iff v_conteq_def)

lemma Simulation_init_valves:
  assumes "Simulation_init bn bv g m vs sd d a gd = Inr sim"
  shows "basal_velocity sim = bv \<and> mapE (init_valve bn bv a) vs = Inr (valves sim)"
  using assms by (auto simp: Simulation_init_def bindE_Inr_iff)

lemma Simulation_init_v_max:
  assumes init: "Simulation_init bn bv g m vs sd d a gd = Inr sim"
      and mem: "v \<in> set (valves sim)"
  shows "v_conteq (Py (orif v)) v (basal_velocity sim) = Inr (v_max v)"
proof -
  from Simulation_init_valves [OF init]
  have bv: "basal_velocity sim = bv" and mp: "mapE (init_valve bn bv a) vs = Inr (valves sim)"
    by simp_all
  from mem obtain i where i: "i < length (valves sim)" and vi: "valves sim ! i = v"
    by (auto simp: in_set_conv_nth)
  from mapE_Inr_nth [OF mp] i have "init_valve bn bv a (vs ! i) = Inr (valves sim ! i)"
    by simp
  from init_valve_v_max [OF this] show ?thesis using vi bv by simp
qed

text \<open>
  Claim C1. Whenever \<open>calc_band\<close> reaches the velocity of band \<open>n\<close>, the radius it
  used is \<open>radio2\<close>, the radius at the deeper height \<open>y_2 = - (n + 1) * y_range / bands\<close>,
  and the velocity is \<open>basal_velocity * (rad / radio2)\<^sup>2\<close> (nan for an undefined radius).
  For a valve of the simulation, a band whose \<open>radio2\<close> equals the valve's \<open>orif\<close> has
  the velocity \<open>v_max\<close> that \<open>Simulation.__init__\<close> assigned to the valve.
\<close>

theorem band_velocity_continuity:
  assumes band: "calc_band_vel sim n v = Inr b"
  shows "y_2 b = - ((real_of_int n + 1) * (y_range v / real_of_int (bands sim))) \<and>
         radio v (y_2 b) = Inr (radio2 b) \<and>
         (case num_of (radio2 b) of
            Some r \<Rightarrow> num_of (vel b) = Some (basal_velocity sim * (rad v / r)\<^sup>2)
          | None \<Rightarrow> vel b = NaN) \<and>
         (Simulation_init bn bv g m vs sd d a gd = Inr sim \<longrightarrow> v \<in> set (valves sim) \<longrightarrow>
            num_of (radio2 b) = Some (orif v) \<longrightarrow> num_of (vel b) = num_of (v_max v))"
proof -
  from band obtain interval w r1 r2 vl where
    iv: "py_div (y_range v) (real_of_int (bands sim)) = Inr interval" and
    r2: "radio v (- ((real_of_int n + 1) * interval)) = Inr r2" and
    vl: "v_conteq r2 v (basal_velocity sim) = Inr vl" and
    b: "b = \<lparr> bl_wave = w, y_1 = - (real_of_int n * interval),
              y_2 = - ((real_of_int n + 1) * interval), radio1 = r1, radio2 = r2, vel = vl \<rparr>"
    by (auto simp: calc_band_vel_def bindE_Inr_iff Let_def)
  from iv have interval: "interval = y_range v / real_of_int (bands sim)"
    by (auto simp: py_div_def split: if_splits)
  have p1: "y_2 b = - ((real_of_int n + 1) * (y_range v / real_of_int (bands sim)))"
    using b interval by simp
  have p2: "radio v (y_2 b) = Inr (radio2 b)" using b r2 by simp
  have p3: "case num_of (radio2 b) of
              Some r \<Rightarrow> num_of (vel b) = Some (basal_velocity sim * (rad v / r)\<^sup>2)
            | None \<Rightarrow> vel b = NaN"
    using v_conteq_num [OF vl] b by (auto split: option.splits)
  have p4: "num_of (vel b) = num_of (v_max v)"
    if init: "Simulation_init bn bv g m vs sd d a gd = Inr sim" and mem: "v \<in> set (valves sim)"
      and tip: "num_of (radio2 b) = Some (orif v)"
  proof -
    from Simulation_init_v_max [OF init mem]
    have "v_conteq (Py (orif v)) v (basal_velocity sim) = Inr (v_max v)" .
    from v_conteq_num [OF this]
    have "num_of (v_max v) = Some (basal_velocity sim * (rad v / orif v)\<^sup>2)" by simp
    moreover from p3 tip
    have "num_of (vel b) = Some (basal_velocity sim * (rad v / orif v)\<^sup>2)" by simp
    ultimately show ?thesis by simp
  qed
  from p1 p2 p3 p4 show ?thesis by blast
qed

text \<open>
  The last band of the example simulation ends at the valve tip: \<open>radio2 = 5 = orif\<close>
  and the velocity is \<open>110 * (10 / 5)\<^sup>2 = 440 = v_max\<close>.
\<close>

theorem band_velocity_continuity_witness:
  "Simulation_init 3 110 1 ''scatter'' [example_valve] (Some 7) (1 / 20) None 0 = Inr example_sim \<and>
   example_sim_valve \<in> set (valves example_sim) \<and>
   calc_band_vel example_sim 2 example_sim_valve =
     Inr \<lparr>bl_wave = \<lparr>peak = 440, t_acel = 2718 / 25, t_eyec = 7573 / 25,
                      t_decel = 971 / 5, time = 600\<rparr>,
          y_1 = - 10, y_2 = - 15, radio1 = Py 10, radio2 = Np 5, vel = Np 440\<rparr> \<and>
   radio example_sim_valve (- 15) = Inr (Np 5) \<and>
   orif example_sim_valve = 5 \<and>
   (110::real) * (10 / 5)\<^sup>2 = 440 \<and>
   v_max example_sim_valve = Py 440"
proof -
  have init: "Simulation_init 3 110 1 ''scatter'' [example_valve] (Some 7) (1 / 20) None 0
      = Inr example_sim"
    by (rule example_sim_init)
  have mem: "example_sim_valve \<in> set (valves example_sim)"
    by (simp add: example_sim_def)
  have tip: "orif example_sim_valve = 5" "v_max example_sim_valve = Py 440"
    by (simp_all add: example_sim_valve_def example_valve_def)
  from band_velocity_continuity [OF example_band_vel, of 3 110 1 "''scatter''" "[example_valve]"
      "Some 7" "1 / 20" None 0]
  show ?thesis using init mem tip example_band_vel by (simp add: power2_eq_square)
qed

section \<open>Construction and continuity: what is checked\<close>

text \<open>
  Claim C7, as amended. \<open>Valve.__init__\<close> validates nothing. For every area \<open>\<ge> 0\<close>, zero
  included, and any LVOT radius, lengths and shape string it returns a valve whose
  \<open>orif\<close> is \<open>sqrt (ava / \<pi>) * 10\<close> and whose other attributes are the arguments as
  given, except that a non-positive \<open>l2\<close> is replaced by \<open>l1\<close>. Only a negative area stops
  the constructor, and through no check of its own: \<open>float()\<close> of the complex root raises
  TypeError.
\<close>

theorem Valve_init_unvalidated:
  "Valve_init a b c d ava t sh wt tf =
     (if ava < 0 then Inl TypeError
      else Inr \<lparr> l1 = a, l2 = (if b > 0 then b else a), length_v = c, rad = d,
                 orif = sqrt (ava / pi) * 10, thick = t, shape = sh, wall_thick = wt,
                 trim_factor = tf, y_range = c + a, v_max = Py 0, alfa = 0 \<rparr>)"
  by (simp add: Valve_init_def ava_to_rad_def divide_less_0_iff)

text \<open>
  Claim C7 as stated: a zero area, an orifice radius equal to the LVOT radius (both 0),
  a negative valve length, a negative \<open>l2\<close> and the unknown shape \<open>blob\<close> give a valve
  object, with \<open>l2\<close> silently set to \<open>l1\<close>.
\<close>

theorem Valve_init_accepts_nonphysical:
  "Valve_init 10 (- 3) (- 5) 0 0 1 ''blob'' 2 0 =
     Inr \<lparr> l1 = 10, l2 = 10, length_v = - 5, rad = 0, orif = 0, thick = 1, shape = ''blob'',
           wall_thick = 2, trim_factor = 0, y_range = 5, v_max = Py 0, alfa = 0 \<rparr>"
  by (simp add: Valve_init_def ava_to_rad_def)



section \<open>Scatter points: proofs\<close>

lemma Wave_of_time: "Wave_of vm = Inr w \<Longrightarrow> time w = 600"
  by (auto simp: Wave_of_def Wave_init_eq split: option.splits)

lemma np_arange_nat: "np_arange (real n) 1 = Inr (map real [0..<n])"
  by (simp add: np_arange_def)

lemma wavepoint_before_onset:
  assumes "wavepoint w ms q = Inr x" and "ms < q"
  shows "x = NaN"
  using assms by (auto simp: wavepoint_def bindE_Inr_iff Let_def split: if_splits)

lemma fmul_NaN [simp]: "fmul NaN e = NaN"
  by (simp add: fmul_def)

lemma wave_first_sample:
  assumes wv: "wave w vl 1 = Inr ys" and tm: "time w + 1 = real n" and n: "0 < n"
  shows "length ys = n \<and> ys ! 0 = NaN"
proof -
  from wv obtain escala outer where
    outer: "get_outer_wave w 1 = Inr outer" and ys: "ys = map (\<lambda>x. fmul x escala) outer"
    by (auto simp: wave_def bindE_Inr_iff)
  from outer have mp: "mapE (\<lambda>ms. wavepoint w ms 80) (map real [0..<n]) = Inr outer"
    unfolding get_outer_wave_def tm np_arange_nat by simp
  from mapE_Inr_nth [OF mp] have len: "length outer = n"
    and nth: "\<forall>i < n. wavepoint w (map real [0..<n] ! i) 80 = Inr (outer ! i)"
    by simp_all
  from nth n have "wavepoint w 0 80 = Inr (outer ! 0)" by auto
  from wavepoint_before_onset [OF this] have "outer ! 0 = NaN" by simp
  then show ?thesis using len ys n by simp
qed

lemma calc_band_first_sample_gen:
  assumes cb: "calc_band rng sim n v = Inr (c, pts)" and sep: "sep_ms sim = 1"
      and N: "real N = 601"
  shows "length pts = N \<and> pts ! 0 = (Np 0, NaN)"
proof -
  from N have Npos: "0 < N" by (cases N) simp_all
  from cb obtain b tl ys draws where
    b: "calc_band_vel sim n v = Inr b" and
    tl: "get_timeline (bl_wave b) (sep_ms sim) = Inr tl" and
    ys: "wave (bl_wave b) (vel b) (sep_ms sim) = Inr ys" and
    pts: "pts = zip (filter (\<lambda>x. \<not> is_nan x) (map Np tl))
                 (map (\<lambda>i. fmul (ys ! i) (Np (draws i))) [0..<length ys])"
    by (auto simp: calc_band_def bindE_Inr_iff Let_def split: if_splits)
  from b have "Wave_of (v_max v) = Inr (bl_wave b)"
    by (auto simp: calc_band_vel_def bindE_Inr_iff Let_def)
  then have "time (bl_wave b) = 600" by (rule Wave_of_time)
  then have tm: "time (bl_wave b) + 1 = real N" using N by simp
  from tl have tl_eq: "tl = map real [0..<N]"
    unfolding get_timeline_def sep tm np_arange_nat by simp
  have flt: "filter (\<lambda>x. \<not> is_nan x) (map Np tl) = map Np tl"
    by (simp add: filter_map o_def)
  from wave_first_sample [OF ys [unfolded sep] tm Npos]
  have len: "length ys = N" and y0: "ys ! 0 = NaN" by simp_all
  have l1: "length pts = N" using pts flt tl_eq len by simp
  have "pts ! 0 = (map Np tl ! 0, map (\<lambda>i. fmul (ys ! i) (Np (draws i))) [0..<length ys] ! 0)"
    unfolding pts flt using tl_eq len Npos by (subst nth_zip) simp_all
  also have "\<dots> = (Np 0, NaN)" using tl_eq len y0 Npos by simp
  finally show ?thesis using l1 by simp
qed

lemma calc_band_first_sample:
  assumes cb: "calc_band rng sim n v = Inr (c, pts)" and sep: "sep_ms sim = 1"
  shows "length pts = 601 \<and> pts ! 0 = (Np 0, NaN)"
  using calc_band_first_sample_gen [OF cb sep, of 601] by simp

lemma wavepoint_total:
  assumes "t_acel w \<noteq> 0" and "t_decel w \<noteq> 0"
  shows "\<exists>x. wavepoint w ms q = Inr x"
  using assms by (simp add: wavepoint_def py_div_def Let_def)

lemma get_outer_wave_total:
  assumes "t_acel w \<noteq> 0" and "t_decel w \<noteq> 0" and "time w + 1 = real N"
  shows "\<exists>outer. get_outer_wave w 1 = Inr outer"
proof -
  have "\<forall>ms \<in> set (map real [0..<N]). \<exists>x. wavepoint w ms 80 = Inr x"
    using wavepoint_total [OF assms(1,2)] by blast
  from mapE_total [OF this] show ?thesis
    unfolding get_outer_wave_def assms(3) np_arange_nat by simp
qed

lemma example_band0_vel:
  "calc_band_vel example_sim 0 example_sim_valve =
     Inr \<lparr>bl_wave = \<lparr>peak = 440, t_acel = 2718 / 25, t_eyec = 7573 / 25,
                      t_decel = 971 / 5, time = 600\<rparr>,
          y_1 = 0, y_2 = - 5, radio1 = Py 10, radio2 = Py 10, vel = Py 110\<rparr>"
  by code_simp

text \<open>
  Claim C5, evaluated on the code. Band 0 of the example simulation: \<open>calc_band\<close>
  returns 601 scatter points, and the first of them, at 0 ms (before the onset at 80 ms),
  carries the nan marker as its velocity. By \<open>calc_band_first_sample\<close> the same holds for
  every band of every simulation whose \<open>calc_band\<close> returns.
\<close>

theorem example_band_cloud_has_nan:
  "case calc_band loc_gen example_sim 0 example_sim_valve of
     Inl e \<Rightarrow> False
   | Inr (c, pts) \<Rightarrow> c = [(Np 10, 0), (Np 10, - 5)] \<and> length pts = 601 \<and> pts ! 0 = (Np 0, NaN)"
proof -
  define w :: Wave where
    "w = \<lparr>peak = 440, t_acel = 2718 / 25, t_eyec = 7573 / 25, t_decel = 971 / 5, time = 600\<rparr>"
  define N :: nat where "N = 601"
  have tm: "time w + 1 = real N" by (simp add: N_def w_def)
  have pk: "peak w = 440" by (simp add: w_def)
  have sep: "sep_ms example_sim = 1" by (simp add: example_sim_def)
  have bv: "calc_band_vel example_sim 0 example_sim_valve =
      Inr \<lparr>bl_wave = w, y_1 = 0, y_2 = - 5, radio1 = Py 10, radio2 = Py 10, vel = Py 110\<rparr>"
    unfolding w_def by (rule example_band0_vel)
  obtain outer where gow: "get_outer_wave w 1 = Inr outer"
    using get_outer_wave_total [OF _ _ tm] by (auto simp: w_def)
  have wv: "wave w (Py 110) 1 = Inr (map (\<lambda>x. fmul x (Py (110 / 440))) outer)"
    by (simp add: wave_def py_div_def gow pk)
  have tl: "get_timeline w 1 = Inr (map real [0..<N])"
    unfolding get_timeline_def tm np_arange_nat by simp
  have flt: "filter (\<lambda>x. \<not> is_nan x) (map Np xs) = map Np xs" for xs
    by (simp add: filter_map o_def)
  have len: "length outer = N"
    using wave_first_sample [OF wv tm] by (simp add: N_def)
  have "\<exists>pts. calc_band loc_gen example_sim 0 example_sim_valve =
      Inr ([(Np 10, 0), (Np 10, - 5)], pts)"
    unfolding calc_band_def bv bindE_Inr Let_def sep
    by (simp add: tl wv flt len loc_gen_def)
  then obtain pts where
    ret: "calc_band loc_gen example_sim 0 example_sim_valve = Inr ([(Np 10, 0), (Np 10, - 5)], pts)"
    by blast
  from calc_band_first_sample [OF ret sep] show ?thesis
    unfolding ret by simp
qed










section \<open>Radius at height: proofs\<close>

lemma radius_le_iff:
  "radius_le p q \<longleftrightarrow>
     (\<exists>b a rb ra. p = Inr b \<and> q = Inr a \<and> num_of b = Some rb \<and> num_of a = Some ra \<and> rb \<le> ra)"
  by (auto simp: radius_le_def split: sum.splits option.splits)

lemma interp_between:
  fixes x1 x2 y1 y2 y :: real
  assumes "x2 \<le> x1" "y2 < y1" "y2 \<le> y" "y \<le> y1"
  shows "x2 \<le> x1 + (y - y1) / (y2 - y1) * (x2 - x1)"
    and "x1 + (y - y1) / (y2 - y1) * (x2 - x1) \<le> x1"
proof -
  let ?q = "(y - y1) / (y2 - y1)"
  have q0: "0 \<le> ?q" using assms by (simp add: divide_nonpos_neg)
  have q1: "?q \<le> 1" using assms by (simp add: neg_divide_le_eq)
  have d: "x2 - x1 \<le> 0" using assms by simp
  have "?q * (x2 - x1) \<le> 0" using q0 d by (rule mult_nonneg_nonpos)
  then show "x1 + ?q * (x2 - x1) \<le> x1" by simp
  have "1 * (x2 - x1) \<le> ?q * (x2 - x1)"
    using q1 d by (intro mult_right_mono_neg) simp_all
  then show "x2 \<le> x1 + ?q * (x2 - x1)" by simp
qed

lemma interp_mono:
  fixes x1 x2 y1 y2 y y' :: real
  assumes "x2 \<le> x1" "y2 < y1" "y' \<le> y"
  shows "x1 + (y' - y1) / (y2 - y1) * (x2 - x1) \<le> x1 + (y - y1) / (y2 - y1) * (x2 - x1)"
proof -
  have "(y - y1) / (y2 - y1) \<le> (y' - y1) / (y2 - y1)"
    using assms by (intro divide_right_mono_neg) simp_all
  then have "(y' - y1) / (y2 - y1) * (x2 - x1) \<le> (y - y1) / (y2 - y1) * (x2 - x1)"
    using assms by (intro mult_right_mono_neg) simp_all
  then show ?thesis by simp
qed

lemma radio_loop_range:
  assumes "sorted_wrt descends pts" and "pts \<noteq> []" and "y \<le> snd (hd pts)"
      and "\<forall>p \<in> set pts. 0 \<le> fst p"
  shows "\<exists>a r. radio_loop pts y = Inr a \<and> num_of a = Some r \<and> 0 \<le> r \<and> r \<le> fst (hd pts)"
  using assms
proof (induction pts rule: induct_list012)
  case 1
  then show ?case by simp
next
  case (2 p)
  then show ?case by (cases p) simp
next
  case (3 p1 p2 rest)
  obtain x1 y1 where p1: "p1 = (x1, y1)" by (cases p1)
  obtain x2 y2 where p2: "p2 = (x2, y2)" by (cases p2)
  from "3.prems"(1) have srt: "sorted_wrt descends (p2 # rest)" and d12: "descends p1 p2"
    by simp_all
  from d12 p1 p2 have ord: "x2 \<le> x1" "y2 < y1" by (simp_all add: descends_def)
  from "3.prems" p1 p2 have yy: "y \<le> y1"
    and nn: "\<forall>p \<in> set (p2 # rest). 0 \<le> fst p" and x2nn: "0 \<le> x2"
    by simp_all
  show ?case
  proof (cases "y < y2")
    case True
    with "3.IH"(2) [OF srt _ _ nn] p2
    obtain a r where "radio_loop (p2 # rest) y = Inr a" "num_of a = Some r" "0 \<le> r" "r \<le> x2"
      by auto
    then show ?thesis using True ord p1 p2 by auto
  next
    case False
    then have y2y: "y2 \<le> y" by simp
    from interp_between [OF ord(1) ord(2) y2y yy] x2nn
    show ?thesis using False ord p1 p2 by (simp add: np_div_def)
  qed
qed

lemma radio_loop_mono:
  assumes "sorted_wrt descends pts" and "pts \<noteq> []" and "y' \<le> y" and "y \<le> snd (hd pts)"
      and "\<forall>p \<in> set pts. 0 \<le> fst p"
  shows "radius_le (radio_loop pts y') (radio_loop pts y)"
  using assms
proof (induction pts rule: induct_list012)
  case 1
  then show ?case by simp
next
  case (2 p)
  then show ?case by (cases p) (simp add: radius_le_def)
next
  case (3 p1 p2 rest)
  obtain x1 y1 where p1: "p1 = (x1, y1)" by (cases p1)
  obtain x2 y2 where p2: "p2 = (x2, y2)" by (cases p2)
  from "3.prems"(1) have srt: "sorted_wrt descends (p2 # rest)" and d12: "descends p1 p2"
    by simp_all
  from d12 p1 p2 have ord: "x2 \<le> x1" "y2 < y1" by (simp_all add: descends_def)
  from "3.prems" p1 p2 have yy: "y \<le> y1"
    and nn: "\<forall>p \<in> set (p2 # rest). 0 \<le> fst p" and le: "y' \<le> y"
    by simp_all
  show ?case
  proof (cases "y < y2")
    case True
    then have "y' < y2" using le by simp
    moreover from "3.IH"(2) [OF srt _ le _ nn] True p2
    have "radius_le (radio_loop (p2 # rest) y') (radio_loop (p2 # rest) y)" by simp
    ultimately show ?thesis using True p1 p2 by simp
  next
    case False
    then have y2y: "y2 \<le> y" by simp
    have ry: "radio_loop (p1 # p2 # rest) y = Inr (Np (x1 + (y - y1) / (y2 - y1) * (x2 - x1)))"
      using False ord p1 p2 by (simp add: np_div_def)
    show ?thesis
    proof (cases "y' < y2")
      case True
      have "y' \<le> snd (hd (p2 # rest))" using True p2 by simp
      from radio_loop_range [OF srt _ this nn] p2
      obtain b rb where b: "radio_loop (p2 # rest) y' = Inr b" "num_of b = Some rb" "rb \<le> x2"
        by auto
      moreover have "x2 \<le> x1 + (y - y1) / (y2 - y1) * (x2 - x1)"
        by (rule interp_between [OF ord(1) ord(2) y2y yy])
      ultimately show ?thesis
        using True ry p1 p2 by (simp add: radius_le_def)
    next
      case False
      then have "radio_loop (p1 # p2 # rest) y' =
          Inr (Np (x1 + (y' - y1) / (y2 - y1) * (x2 - x1)))"
        using ord p1 p2 by (simp add: np_div_def)
      then show ?thesis
        using ry interp_mono [OF ord(1) ord(2) le] by (simp add: radius_le_def)
    qed
  qed
qed

lemma mapE_Inr_map: "(\<forall>x \<in> set xs. f x = Inr (g x)) \<Longrightarrow> mapE f xs = Inr (map g xs)"
  by (induction xs) simp_all

lemma zip_map_upt: "zip (map X [0..<n]) (map Y [0..<n]) = map (\<lambda>i. (X i, Y i)) [0..<n]"
  by (simp add: zip_map_map zip_same_conv_map)

lemma sorted_wrt_contour:
  assumes "\<And>i j. i < j \<Longrightarrow> j < n \<Longrightarrow> X j \<le> X i \<and> Y j < Y i"
  shows "sorted_wrt descends (zip (map X [0..<n]) (map Y [0..<n]))"
  unfolding zip_map_upt sorted_wrt_map
  using assms by (simp add: sorted_wrt_iff_nth_less descends_def)

lemma contour_mono:
  fixes X Y :: "nat \<Rightarrow> real"
  assumes line: "line v = Inr (map X [0..<Suc n], map Y [0..<Suc n])"
      and desc: "\<And>i j. i < j \<Longrightarrow> j < Suc n \<Longrightarrow> X j \<le> X i \<and> Y j < Y i"
      and x0: "X 0 = rad v" and y0: "0 \<le> Y 0" and nn: "\<And>i. i < Suc n \<Longrightarrow> 0 \<le> X i"
      and dom: "- (l1 v + length_v v) \<le> y'" "y' \<le> y" "y \<le> 0"
  shows "radius_le (radio v y') (radio v y)"
proof -
  let ?pts = "zip (map X [0..<Suc n]) (map Y [0..<Suc n])"
  have srt: "sorted_wrt descends ?pts" using desc by (rule sorted_wrt_contour)
  have pts_eq: "?pts = map (\<lambda>i. (X i, Y i)) [0..<Suc n]" by (rule zip_map_upt)
  have ne: "?pts \<noteq> []" unfolding pts_eq by simp
  have hd_pts: "hd ?pts = (X 0, Y 0)" unfolding pts_eq by (simp add: hd_map upt_conv_Cons del: upt_Suc)
  have nonneg: "\<forall>p \<in> set ?pts. 0 \<le> fst p" unfolding pts_eq using nn by auto
  have contour: "radio v z = radio_loop ?pts (z - (- l1 v))"
    if "z < - l1 v" "- (l1 v + length_v v) \<le> z" "z \<le> 0" for z
    using that by (simp add: radio_def line del: upt_Suc)
  have lvot: "radio v z = Inr (Py (rad v))" if "- l1 v \<le> z" "z \<le> 0" for z
    using that by (simp add: radio_def)
  show ?thesis
  proof (cases "- l1 v \<le> y")
    case True
    note ry = lvot [OF True dom(3)]
    show ?thesis
    proof (cases "- l1 v \<le> y'")
      case True
      with dom have "radio v y' = Inr (Py (rad v))" by (intro lvot) simp_all
      then show ?thesis using ry by (simp add: radius_le_def)
    next
      case False
      then have lt: "y' < - l1 v" by simp
      have "y' - (- l1 v) \<le> snd (hd ?pts)" using lt y0 unfolding hd_pts by simp
      from radio_loop_range [OF srt ne this nonneg]
      obtain a r where "radio_loop ?pts (y' - (- l1 v)) = Inr a" "num_of a = Some r"
        "r \<le> fst (hd ?pts)" by blast
      then show ?thesis
        using ry contour [OF lt dom(1)] x0 dom unfolding hd_pts
        by (simp add: radius_le_def del: upt_Suc)
    qed
  next
    case False
    then have lt: "y < - l1 v" and lt': "y' < - l1 v" using dom by simp_all
    have in_dom: "- (l1 v + length_v v) \<le> y" using dom by simp
    have le: "y' - (- l1 v) \<le> y - (- l1 v)" using dom by simp
    have top: "y - (- l1 v) \<le> snd (hd ?pts)" using lt y0 unfolding hd_pts by simp
    from radio_loop_mono [OF srt ne le top nonneg]
    show ?thesis using contour [OF lt in_dom dom(3)] contour [OF lt' dom(1)] dom
      by (simp del: upt_Suc)
  qed
qed

lemma lvot_only:
  assumes "length_v v \<le> 0" and "- (l1 v + length_v v) \<le> y'" "y' \<le> y" "y \<le> 0"
  shows "radius_le (radio v y') (radio v y)"
  using assms by (simp add: radio_def radius_le_def)

lemma contour_x_props:
  fixes r o' :: real
  assumes "o' < r"
  shows "i < j \<Longrightarrow> r - (r - o') * (real j / 9) \<le> r - (r - o') * (real i / 9)"
    and "i < 10 \<Longrightarrow> o' \<le> r - (r - o') * (real i / 9)"
proof -
  assume "i < j"
  then have "real i / 9 \<le> real j / 9" by simp
  then have "(r - o') * (real i / 9) \<le> (r - o') * (real j / 9)"
    using assms by (intro mult_left_mono) simp_all
  then show "r - (r - o') * (real j / 9) \<le> r - (r - o') * (real i / 9)" by simp
next
  assume "i < 10"
  then have "real i / 9 \<le> 1" by simp
  then have "(r - o') * (real i / 9) \<le> (r - o') * 1"
    using assms by (intro mult_left_mono) simp_all
  then show "o' \<le> r - (r - o') * (real i / 9)" by simp
qed

lemma ten: "Suc 9 = 10"
  by simp

lemma line_shape_eq:
  assumes "shape v = ''line''" and "orif v < rad v"
  shows "line v =
     Inr (map (\<lambda>i. rad v - (rad v - orif v) * (real i / 9)) [0..<10],
          map (\<lambda>i. - (length_v v * (real i / 9))) [0..<10])"
proof -
  have ne: "rad v - orif v \<noteq> 0" using assms(2) by simp
  have y: "- (rad v - (rad v - (rad v - orif v) * (real i / 9))) * (length_v v / (rad v - orif v))
           = - (length_v v * (real i / 9))" for i
    using ne by (simp add: field_simps)
  show ?thesis
    unfolding line_def Let_def
    using assms(1) ne by (simp add: py_div_def o_def y del: upt_rec_numeral)
qed

lemma cusp_shape_eq:
  assumes "shape v = ''cusp''" and "trim_factor v \<noteq> 1"
      and "x_len = (rad v - orif v) / (1 - trim_factor v)"
      and "y_len = x_len\<^sup>2 - ((rad v - (rad v - orif v)) - (rad v - x_len))\<^sup>2"
      and "y_len \<noteq> 0"
  shows "line v =
     Inr (map (\<lambda>i. rad v - (rad v - orif v) * (real i / 9)) [0..<10],
          map (\<lambda>i. ((rad v - (rad v - orif v) * (real i / 9)) - (rad v - x_len))\<^sup>2
                       * length_v v / y_len - length_v v) [0..<10])"
proof -
  let ?xs = "map (\<lambda>i. rad v - (rad v - orif v) * (real i / 9)) [0..<10]"
  have "\<forall>x \<in> set ?xs.
          bindE (np_div ((x - (rad v - x_len))\<^sup>2 * length_v v) y_len) (\<lambda>q. Inr (q - length_v v))
          = Inr ((x - (rad v - x_len))\<^sup>2 * length_v v / y_len - length_v v)"
    using assms(5) by (simp add: np_div_def)
  from mapE_Inr_map [OF this]
  have ys: "mapE (\<lambda>x. bindE (np_div ((x - (rad v - x_len))\<^sup>2 * length_v v) y_len)
                          (\<lambda>q. Inr (q - length_v v))) ?xs
            = Inr (map (\<lambda>x. (x - (rad v - x_len))\<^sup>2 * length_v v / y_len - length_v v) ?xs)" .
  have ne: "1 - trim_factor v \<noteq> 0" using assms(2) by simp
  show ?thesis
    unfolding line_def Let_def
    using assms(1) ne ys [unfolded assms(3,4)]
    by (simp add: py_div_def o_def assms(3,4) del: upt_rec_numeral)
qed

lemma line_contour_mono:
  assumes shp: "shape v = ''line''" and geo: "orif v < rad v" and nn: "0 \<le> orif v"
      and len: "0 < length_v v"
      and dom: "- (l1 v + length_v v) \<le> y'" "y' \<le> y" "y \<le> 0"
  shows "radius_le (radio v y') (radio v y)"
proof (rule contour_mono [where n = 9, unfolded ten, OF line_shape_eq [OF shp geo] _ _ _ _ dom])
  fix i j :: nat
  assume ij: "i < j" and "j < 10"
  have "real i / 9 < real j / 9" using ij by simp
  then have "length_v v * (real i / 9) < length_v v * (real j / 9)"
    using len by (intro mult_strict_left_mono) simp_all
  then show "rad v - (rad v - orif v) * (real j / 9) \<le> rad v - (rad v - orif v) * (real i / 9) \<and>
        - (length_v v * (real j / 9)) < - (length_v v * (real i / 9))"
    using contour_x_props(1) [OF geo ij] by simp
next
  show "rad v - (rad v - orif v) * (real 0 / 9) = rad v" by simp
next
  show "0 \<le> - (length_v v * (real 0 / 9))" by simp
next
  fix i :: nat
  assume "i < 10"
  from contour_x_props(2) [OF geo this] nn
  show "0 \<le> rad v - (rad v - orif v) * (real i / 9)" by simp
qed

lemma cusp_contour_mono:
  assumes shp: "shape v = ''cusp''" and tf: "0 \<le> trim_factor v" "trim_factor v < 1"
      and geo: "orif v < rad v" and nn: "0 \<le> orif v"
      and len: "0 < length_v v"
      and dom: "- (l1 v + length_v v) \<le> y'" "y' \<le> y" "y \<le> 0"
  shows "radius_le (radio v y') (radio v y)"
proof -
  define w where "w = rad v - orif v"
  define x_len where "x_len = (rad v - orif v) / (1 - trim_factor v)"
  define y_len where "y_len = x_len\<^sup>2 - ((rad v - (rad v - orif v)) - (rad v - x_len))\<^sup>2"
  define u where "u i = x_len - w * (real i / 9)" for i :: nat
  have wpos: "0 < w" using geo by (simp add: w_def)
  have d: "0 < 1 - trim_factor v" "1 - trim_factor v \<le> 1" using tf by simp_all
  have xw: "w \<le> x_len"
  proof -
    have "w * (1 - trim_factor v) \<le> w * 1"
      using wpos d by (intro mult_left_mono) simp_all
    then show ?thesis using d by (simp add: x_len_def w_def pos_le_divide_eq)
  qed
  have y_len_eq: "y_len = w * (2 * x_len - w)"
    by (simp add: y_len_def w_def power2_eq_square algebra_simps)
  have y_len_pos: "0 < y_len"
    unfolding y_len_eq using wpos xw by (intro mult_pos_pos) simp_all
  have sq: "y_len \<le> x_len\<^sup>2" by (simp add: y_len_def)
  have Xu: "(rad v - (rad v - orif v) * (real i / 9)) - (rad v - x_len) = u i" for i
    by (simp add: u_def w_def)
  have u_nonneg: "0 \<le> u i" if "i < 10" for i
  proof -
    from that have "real i / 9 \<le> 1" by simp
    then have "w * (real i / 9) \<le> w * 1" using wpos by (intro mult_left_mono) simp_all
    then show ?thesis using xw by (simp add: u_def)
  qed
  have u_less: "u j < u i" if "i < j" for i j
  proof -
    from that have "real i / 9 < real j / 9" by simp
    then have "w * (real i / 9) < w * (real j / 9)"
      using wpos by (intro mult_strict_left_mono) simp_all
    then show ?thesis by (simp add: u_def)
  qed
  have line_eq: "line v =
     Inr (map (\<lambda>i. rad v - (rad v - orif v) * (real i / 9)) [0..<10],
          map (\<lambda>i. (u i)\<^sup>2 * length_v v / y_len - length_v v) [0..<10])"
  proof -
    have "trim_factor v \<noteq> 1" and "y_len \<noteq> 0" using tf(2) y_len_pos by simp_all
    from cusp_shape_eq [OF shp this(1) x_len_def y_len_def this(2)]
    show ?thesis unfolding Xu .
  qed
  show ?thesis
  proof (rule contour_mono [where n = 9, unfolded ten, OF line_eq _ _ _ _ dom])
    fix i j :: nat
    assume ij: "i < j" and j: "j < 10"
    have "(u j)\<^sup>2 < (u i)\<^sup>2"
      using u_less [OF ij] u_nonneg [OF j] by (intro power_strict_mono) simp_all
    then have "(u j)\<^sup>2 * length_v v < (u i)\<^sup>2 * length_v v"
      using len by (intro mult_strict_right_mono) simp_all
    then have "(u j)\<^sup>2 * length_v v / y_len < (u i)\<^sup>2 * length_v v / y_len"
      using y_len_pos by (intro divide_strict_right_mono) simp_all
    then show "rad v - (rad v - orif v) * (real j / 9) \<le> rad v - (rad v - orif v) * (real i / 9) \<and>
        (u j)\<^sup>2 * length_v v / y_len - length_v v < (u i)\<^sup>2 * length_v v / y_len - length_v v"
      using contour_x_props(1) [OF geo ij] by simp
  next
    show "rad v - (rad v - orif v) * (real 0 / 9) = rad v" by simp
  next
    have "y_len * length_v v \<le> x_len\<^sup>2 * length_v v"
      using sq len by (intro mult_right_mono) simp_all
    then have "length_v v \<le> x_len\<^sup>2 * length_v v / y_len"
      using y_len_pos by (simp add: pos_le_divide_eq mult.commute)
    then show "0 \<le> (u 0)\<^sup>2 * length_v v / y_len - length_v v"
      by (simp add: u_def)
  next
    fix i :: nat
    assume "i < 10"
    from contour_x_props(2) [OF geo this] nn
    show "0 \<le> rad v - (rad v - orif v) * (real i / 9)" by simp
  qed
qed

text \<open>
  Claim C4, as amended. For a \<open>line\<close> valve, and for a \<open>cusp\<close> valve whose trim factor
  lies in \<open>[0, 1)\<close>, with \<open>rad > orif\<close> (and \<open>orif \<ge> 0\<close>, which \<open>ava_to_rad\<close> always
  gives): for all heights \<open>- (l1 + length) \<le> y' \<le> y \<le> 0\<close> both radius queries return
  numbers and \<open>radio(y') \<le> radio(y)\<close>. (For a trim factor strictly between 0 and 1 the
  contour ends above the nominal tip; below its end the loop finds no bracket and the
  result is the initial value 0.0 of \<open>radio\<close>, which is below every contour radius.)
\<close>

theorem radio_monotone:
  assumes shp: "shape v = ''line'' \<or>
                (shape v = ''cusp'' \<and> 0 \<le> trim_factor v \<and> trim_factor v < 1)"
      and geo: "orif v < rad v" and nn: "0 \<le> orif v"
      and dom: "- (l1 v + length_v v) \<le> y'" "y' \<le> y" "y \<le> 0"
  shows "radius_le (radio v y') (radio v y)"
proof (cases "0 < length_v v")
  case True
  from shp show ?thesis
  proof
    assume "shape v = ''line''"
    then show ?thesis by (rule line_contour_mono [OF _ geo nn True dom])
  next
    assume "shape v = ''cusp'' \<and> 0 \<le> trim_factor v \<and> trim_factor v < 1"
    then show ?thesis using cusp_contour_mono [OF _ _ _ geo nn True dom] by blast
  qed
next
  case False
  then have "length_v v \<le> 0" by simp
  then show ?thesis by (rule lvot_only [OF _ dom])
qed

lemma sqrt_quarter: "sqrt (1 / 4) = 1 / 2"
  by (rule real_sqrt_unique) (simp_all add: power2_eq_square)

lemma example_valves_constructed:
  "Valve_init 10 10 5 10 (pi / 4) 1 ''line'' 2 0 = Inr example_valve \<and>
   Valve_init 10 10 5 10 (pi / 4) 1 ''cusp'' 2 2 = Inr overtrimmed_valve"
  by (simp add: Valve_init_def ava_to_rad_def sqrt_quarter example_valve_def overtrimmed_valve_def)

text \<open>
  The example \<open>line\<close> valve: radius 9 at height \<open>-11\<close> and radius 6 at height \<open>-14\<close>.
\<close>

theorem radio_monotone_witness:
  "radio example_valve (- 14) = Inr (Np 6) \<and>
   radio example_valve (- 11) = Inr (Np 9) \<and>
   radius_le (radio example_valve (- 14)) (radio example_valve (- 11))"
proof -
  have v1: "radio example_valve (- 14) = Inr (Np 6)" by code_simp
  have v2: "radio example_valve (- 11) = Inr (Np 9)" by code_simp
  have "radius_le (radio example_valve (- 14)) (radio example_valve (- 11))"
    by (rule radio_monotone) (simp_all add: example_valve_def)
  with v1 v2 show ?thesis by simp
qed

text \<open>
  Claim C4 as stated covers every \<open>cusp\<close> valve with \<open>rad > orif\<close>. With
  \<open>trim_factor = 2\<close> (LVOT radius 10, orifice radius 5) the radius at height \<open>-10\<close>, the
  end of the LVOT, is 10, and half a millimetre deeper it is \<open>713 / 38\<close>, about 18.8.
\<close>

theorem radio_overtrimmed_not_monotone:
  "radio overtrimmed_valve (- 10) = Inr (Py 10) \<and>
   radio overtrimmed_valve (- 21 / 2) = Inr (Np (713 / 38)) \<and>
   \<not> radius_le (radio overtrimmed_valve (- 21 / 2)) (radio overtrimmed_valve (- 10))"
proof -
  have v1: "radio overtrimmed_valve (- 10) = Inr (Py 10)" by code_simp
  have v2: "radio overtrimmed_valve (- 21 / 2) = Inr (Np (713 / 38))" by code_simp
  show ?thesis unfolding v1 v2 by (simp add: radius_le_def)
qed

end
